theory Spec2Isabelle
  imports Main
begin

section \<open>JavaScript strings\<close>

text \<open>
  A JavaScript string is a sequence of code units. It is modelled by \<^typ>\<open>string\<close>, one
  \<^typ>\<open>char\<close> per code unit, which covers the code units below 256. The functions of this
  section are the string methods the program calls, written out on lists.
\<close>

definition upperChars :: string where
  "upperChars = ''ABCDEFGHIJKLMNOPQRSTUVWXYZ''"

definition lowerChars :: string where
  "lowerChars = ''abcdefghijklmnopqrstuvwxyz''"

definition digitChars :: string where
  "digitChars = ''0123456789''"

text \<open>The character class \<^verbatim>\<open>[a-zA-Z0-9]\<close>.\<close>

definition isAlnum :: "char \<Rightarrow> bool" where
  "isAlnum c = (c \<in> set (lowerChars @ upperChars @ digitChars))"

text \<open>
  \<^verbatim>\<open>toLowerCase\<close> on one code unit: the letters A to Z move to a to z. The program only
  calls it on strings over \<^verbatim>\<open>[a-zA-Z0-9_]\<close>, where this is all it does.
\<close>

definition toLowerChar :: "char \<Rightarrow> char" where
  "toLowerChar c = (case map_of (zip upperChars lowerChars) c of Some l \<Rightarrow> l | None \<Rightarrow> c)"

definition toLowerCase :: "string \<Rightarrow> string" where
  "toLowerCase s = map toLowerChar s"

text \<open>
  The white space and line terminators that \<^verbatim>\<open>trim\<close> removes, among the code units below
  256: tab, line feed, vertical tab, form feed, carriage return, space, no-break space.
\<close>

definition isWhiteSpace :: "char \<Rightarrow> bool" where
  "isWhiteSpace c = (c \<in> {CHR 0x09, CHR 0x0A, CHR 0x0B, CHR 0x0C, CHR 0x0D, CHR 0x20, CHR 0xA0})"

definition trim :: "string \<Rightarrow> string" where
  "trim s = rev (dropWhile isWhiteSpace (rev (dropWhile isWhiteSpace s)))"

text \<open>
  \<^verbatim>\<open>s.split(c)\<close> for a one-character separator: the pieces between the separators, in
  order; a string without the separator is its own single piece.
\<close>

fun split_on :: "char \<Rightarrow> string \<Rightarrow> string list" where
  "split_on c [] = [[]]"
| "split_on c (x # xs) =
     (if x = c then [] # split_on c xs
      else (case split_on c xs of [] \<Rightarrow> [[x]] | y # ys \<Rightarrow> (x # y) # ys))"

text \<open>\<^verbatim>\<open>xs[i]\<close>: \<^verbatim>\<open>undefined\<close> out of range.\<close>

definition at_index :: "'a list \<Rightarrow> nat \<Rightarrow> 'a option" where
  "at_index xs i = (if i < length xs then Some (xs ! i) else None)"

text \<open>
  An object with string keys is a list of properties. Assigning to a property that exists
  replaces its value, assigning to a new one adds it; reading is \<^const>\<open>map_of\<close>.
\<close>

fun setProp :: "string \<Rightarrow> 'v \<Rightarrow> (string \<times> 'v) list \<Rightarrow> (string \<times> 'v) list" where
  "setProp k v [] = [(k, v)]"
| "setProp k v (p # ps) = (if fst p = k then (k, v) # ps else p # setProp k v ps)"

text \<open>\<^verbatim>\<open>xs.join(sep)\<close>\<close>

fun join :: "string \<Rightarrow> string list \<Rightarrow> string" where
  "join sep [] = []"
| "join sep [x] = x"
| "join sep (x # y # ys) = x @ sep @ join sep (y # ys)"


text \<open>\<^verbatim>\<open>s.startsWith(c)\<close> and \<^verbatim>\<open>s.endsWith(c)\<close> for a one-character string \<open>c\<close>.\<close>

definition startsWith :: "char \<Rightarrow> string \<Rightarrow> bool" where
  "startsWith c s = (case s of [] \<Rightarrow> False | x # _ \<Rightarrow> x = c)"

definition endsWith :: "char \<Rightarrow> string \<Rightarrow> bool" where
  "endsWith c s = (s \<noteq> [] \<and> last s = c)"

text \<open>
  A non-negative integer in a template string: its decimal digits. The counters and
  coordinates of the program stay far below the range where a number prints with an exponent.
\<close>

definition digitChar :: "nat \<Rightarrow> char" where
  "digitChar d = digitChars ! d"

fun digitsOf :: "nat \<Rightarrow> string" where
  "digitsOf n = (if n < 10 then [digitChar n] else digitsOf (n div 10) @ [digitChar (n mod 10)])"

declare digitsOf.simps [simp del]

text \<open>
  The text of a number whose value is an integer. Within the safe integers, up to
  \<open>2\<^sup>5\<^sup>3 - 1\<close> in size, it is the sign and the decimal digits. Beyond them the program
  prints rounded digits, and an exponent from \<open>10\<^sup>2\<^sup>1\<close> on; that text is the
  parameter \<open>big\<close>.
\<close>

definition safeInt :: "int \<Rightarrow> bool" where
  "safeInt i = (\<bar>i\<bar> \<le> 9007199254740991)"

definition decimal :: "int \<Rightarrow> string" where
  "decimal i = (if i < 0 then ''-'' @ digitsOf (nat (- i)) else digitsOf (nat i))"

text \<open>Reading a decimal numeral: the value of its digits, negated after a minus sign.\<close>

definition digitValue :: "char \<Rightarrow> nat" where
  "digitValue c = length (takeWhile (\<lambda>x. x \<noteq> c) digitChars)"

definition readNat :: "string \<Rightarrow> nat" where
  "readNat s = foldl (\<lambda>acc c. 10 * acc + digitValue c) 0 s"

definition readInt :: "string \<Rightarrow> int" where
  "readInt s = (if startsWith (CHR ''-'') s then - int (readNat (tl s)) else int (readNat s))"

definition numberToString :: "(int \<Rightarrow> string) \<Rightarrow> int \<Rightarrow> string" where
  "numberToString big i = (if safeInt i then decimal i else big i)"

text \<open>\<^verbatim>\<open>JSON.stringify\<close> of an array of such numbers: their texts, separated by commas.\<close>

definition JSON_stringify :: "(int \<Rightarrow> string) \<Rightarrow> int list \<Rightarrow> string" where
  "JSON_stringify big xs = ''['' @ join '','' (map (numberToString big) xs) @ '']''"

section \<open>types.ts\<close>

record FieldDefinition =
  field_id :: string
  field_name :: string
  field_key :: string
  field_color :: string

definition COLORS :: "string list" where
  "COLORS = [''#ef4444'', ''#3b82f6'', ''#10b981'', ''#f59e0b'', ''#8b5cf6'',
             ''#ec4899'', ''#06b6d4'', ''#84cc16'', ''#f97316'', ''#6366f1'']"

text \<open>
  \<^verbatim>\<open>ExtractedValue.value\<close> is a string, a number or \<^verbatim>\<open>null\<close>; numbers are modelled by
  integers. \<^verbatim>\<open>box_2d\<close> is an array of integers, \<^verbatim>\<open>null\<close> or missing.
\<close>

datatype jsvalue = JNull | JStr string | JNum int

record ExtractedValue =
  ev_value :: jsvalue
  box_2d :: "int list option"

datatype Status = Idle | Processing | Success | Error

text \<open>
  \<^verbatim>\<open>data\<close> is an object keyed by field key; an entry that is missing or \<^verbatim>\<open>null\<close> reads
  as \<^const>\<open>None\<close>.
\<close>

record DocumentResult =
  doc_id :: string
  doc_file :: string
  fileName :: string
  fileType :: string
  previewUrl :: "string option"
  status :: Status
  errorMsg :: "string option"
  data :: "(string \<times> ExtractedValue) list"

record ReconcileResult =
  report :: string
  code :: string

section \<open>utils.ts: keys and colours\<close>

text \<open>\<^verbatim>\<open>name.replace(/[^a-zA-Z0-9]/g, '_').toLowerCase()\<close>\<close>

definition replaceNonAlnum :: "string \<Rightarrow> string" where
  "replaceNonAlnum s = map (\<lambda>c. if isAlnum c then c else CHR ''_'') s"

definition sanitizeKey :: "string \<Rightarrow> string" where
  "sanitizeKey name = toLowerCase (replaceNonAlnum name)"

text \<open>\<^verbatim>\<open>COLORS[index % COLORS.length]\<close>; the index is a list length, so never negative.\<close>

definition getNextColor :: "nat \<Rightarrow> string" where
  "getNextColor index = COLORS ! (index mod length COLORS)"

section \<open>App.tsx: the field registry\<close>

text \<open>
  \<^verbatim>\<open>addField\<close> reads the text box \<^verbatim>\<open>newFieldName\<close> and the field list; the identifier
  comes from \<^verbatim>\<open>uuidv4()\<close> and is a parameter here. A name that trims to the empty string
  leaves the list as it is.
\<close>

definition addField :: "string \<Rightarrow> string \<Rightarrow> FieldDefinition list \<Rightarrow> FieldDefinition list" where
  "addField uuid newFieldName prev =
     (if trim newFieldName = [] then prev
      else prev @ [\<lparr>field_id = uuid, field_name = newFieldName,
                    field_key = sanitizeKey newFieldName,
                    field_color = getNextColor (length prev)\<rparr>])"

definition removeField :: "string \<Rightarrow> FieldDefinition list \<Rightarrow> FieldDefinition list" where
  "removeField i prev = filter (\<lambda>f. field_id f \<noteq> i) prev"

text \<open>The field list the application starts with.\<close>

definition initialFields :: "FieldDefinition list" where
  "initialFields =
     [\<lparr>field_id = ''1'', field_name = ''Invoice Number'', field_key = ''invoice_number'',
       field_color = COLORS ! 0\<rparr>,
      \<lparr>field_id = ''2'', field_name = ''Invoice Date'', field_key = ''invoice_date'',
       field_color = COLORS ! 1\<rparr>,
      \<lparr>field_id = ''3'', field_name = ''Total Amount'', field_key = ''total_amount'',
       field_color = COLORS ! 2\<rparr>]"

text \<open>A run of \<^verbatim>\<open>addField\<close> calls, each with its fresh identifier and the text typed.\<close>

fun addFields :: "(string \<times> string) list \<Rightarrow> FieldDefinition list \<Rightarrow> FieldDefinition list" where
  "addFields [] fs = fs"
| "addFields ((uuid, n) # ops) fs = addFields ops (addField uuid n fs)"

section \<open>geminiService.ts\<close>

datatype js_error = ApiKeyMissing | FileReadError | RemoteError | NoResponse | JsonSyntaxError

text \<open>What \<^verbatim>\<open>processDocument\<close> sends: the inline document and the fields it asks for.\<close>

record ExtractRequest =
  req_mimeType :: string
  req_data :: "string option"
  req_fieldNames :: "string list"
  req_schemaKeys :: "string list"

type_synonym row = "(string \<times> jsvalue) list"

text \<open>What \<^verbatim>\<open>reconcileData\<close> sends: both datasets and the user's instructions.\<close>

record ReconcileRequest =
  req_extractedData :: "row list"
  req_referenceData :: "row list"
  req_userInstructions :: string

text \<open>
  The answer to a reconciliation request: its text, and the parts of the first candidate,
  each with its executable code if it has one.
\<close>

record ReconcileResponse =
  resp_text :: "string option"
  resp_parts :: "string option list"

text \<open>
  The collaborators of the service module. \<^verbatim>\<open>API_KEY\<close> is the environment variable.
  \<^verbatim>\<open>readAsDataURL\<close> is the file reader, \<^const>\<open>None\<close> when it fails.
  \<^verbatim>\<open>extractContent i req\<close> is the answer of the remote model to the extraction request
  issued for the \<open>i\<close>-th document of a run: \<^const>\<open>None\<close> when the call is rejected, otherwise
  the text of the response if it has one. \<^verbatim>\<open>JSON_parse\<close> is \<^const>\<open>None\<close> on a syntax
  error. \<^verbatim>\<open>reconcileContent\<close> is the answer to a reconciliation request.
\<close>

record Env =
  API_KEY :: "string option"
  readAsDataURL :: "string \<Rightarrow> string option"
  extractContent :: "nat \<Rightarrow> ExtractRequest \<Rightarrow> string option option"
  JSON_parse :: "string \<Rightarrow> (string \<times> ExtractedValue) list option"
  reconcileContent :: "ReconcileRequest \<Rightarrow> ReconcileResponse option"

text \<open>\<^verbatim>\<open>!process.env.API_KEY\<close>: the variable is unset or empty.\<close>

definition apiKeyMissing :: "Env \<Rightarrow> bool" where
  "apiKeyMissing env = (case API_KEY env of None \<Rightarrow> True | Some k \<Rightarrow> k = [])"

text \<open>
  \<^verbatim>\<open>processDocument\<close> returns the requests it sent to the remote model and either the
  parsed field map or the error it throws.
\<close>

definition processDocument ::
  "Env \<Rightarrow> nat \<Rightarrow> DocumentResult \<Rightarrow> FieldDefinition list
     \<Rightarrow> ExtractRequest list \<times> (js_error + (string \<times> ExtractedValue) list)" where
  "processDocument env i doc flds =
     (if apiKeyMissing env then ([], Inl ApiKeyMissing)
      else case readAsDataURL env (doc_file doc) of
        None \<Rightarrow> ([], Inl FileReadError)
      | Some base64DataUrl \<Rightarrow>
          let req = \<lparr>req_mimeType = fileType doc,
                     req_data = at_index (split_on (CHR '','') base64DataUrl) 1,
                     req_fieldNames = map field_name flds,
                     req_schemaKeys = map field_key flds\<rparr>
          in ([req],
              case extractContent env i req of
                None \<Rightarrow> Inl RemoteError
              | Some None \<Rightarrow> Inl NoResponse
              | Some (Some text) \<Rightarrow>
                  if text = [] then Inl NoResponse
                  else (case JSON_parse env text of
                          None \<Rightarrow> Inl JsonSyntaxError
                        | Some json \<Rightarrow> Inr json)))"

text \<open>\<^verbatim>\<open>x || d\<close> on a value: \<^verbatim>\<open>undefined\<close>, \<^verbatim>\<open>null\<close>, the empty string and 0 are falsy.\<close>

definition truthy :: "jsvalue \<Rightarrow> bool" where
  "truthy v = (case v of JNull \<Rightarrow> False | JStr s \<Rightarrow> s \<noteq> [] | JNum n \<Rightarrow> n \<noteq> 0)"

definition orElse :: "jsvalue option \<Rightarrow> jsvalue \<Rightarrow> jsvalue" where
  "orElse x d = (case x of None \<Rightarrow> d | Some v \<Rightarrow> if truthy v then v else d)"

text \<open>\<^verbatim>\<open>d.data[f.key]?.value\<close>\<close>

definition extractedValue :: "DocumentResult \<Rightarrow> FieldDefinition \<Rightarrow> jsvalue option" where
  "extractedValue d f = map_option ev_value (map_of (data d) (field_key f))"

text \<open>\<^verbatim>\<open>d.data[f.key]?.value || null\<close>\<close>

definition reconcileValue :: "DocumentResult \<Rightarrow> FieldDefinition \<Rightarrow> jsvalue" where
  "reconcileValue d f = orElse (extractedValue d f) JNull"

text \<open>The row of one document in the data sent for reconciliation.\<close>

definition reconcileRow :: "FieldDefinition list \<Rightarrow> DocumentResult \<Rightarrow> row" where
  "reconcileRow flds d =
     fold (\<lambda>f row. setProp (field_name f) (reconcileValue d f) row) flds
       [(''fileName'', JStr (fileName d))]"

definition extractedData :: "DocumentResult list \<Rightarrow> FieldDefinition list \<Rightarrow> row list" where
  "extractedData documents flds =
     map (reconcileRow flds) (filter (\<lambda>d. status d = Success) documents)"

definition codeSeparator :: string where
  "codeSeparator = [CHR 0x0A, CHR 0x0A] @
     ''# ---------------------------------------------------------'' @ [CHR 0x0A] @
     ''# Next Code Block'' @ [CHR 0x0A] @
     ''# ---------------------------------------------------------'' @ [CHR 0x0A, CHR 0x0A]"

definition reconcileData ::
  "Env \<Rightarrow> DocumentResult list \<Rightarrow> FieldDefinition list \<Rightarrow> row list \<Rightarrow> string
     \<Rightarrow> ReconcileRequest list \<times> (js_error + ReconcileResult)" where
  "reconcileData env documents flds referenceData userInstructions =
     (if apiKeyMissing env then ([], Inl ApiKeyMissing)
      else
        let req = \<lparr>req_extractedData = extractedData documents flds,
                   req_referenceData = referenceData,
                   req_userInstructions = userInstructions\<rparr>
        in ([req],
            case reconcileContent env req of
              None \<Rightarrow> Inl RemoteError
            | Some response \<Rightarrow>
                let report = (case resp_text response of
                                None \<Rightarrow> ''Analysis completed, but no text explanation was returned.''
                              | Some t \<Rightarrow> if t = [] then ''Analysis completed, but no text explanation was returned.'' else t);
                    codeBlocks = [c. Some c \<leftarrow> resp_parts response]
                in Inr \<lparr>report = report, code = join codeSeparator codeBlocks\<rparr>))"

section \<open>App.tsx: extraction and reconciliation\<close>

text \<open>
  The state of the application that the two operations read and write, with the alerts
  shown and the requests sent to the remote model so far.
\<close>

record AppState =
  documents :: "DocumentResult list"
  isProcessing :: bool
  referenceData :: "row list"
  reconcilePrompt :: string
  isReconciling :: bool
  reconcileResult :: "ReconcileResult option"
  alerts :: "string list"
  extractCalls :: "(nat \<times> ExtractRequest) list"
  reconcileCalls :: "ReconcileRequest list"

text \<open>\<^verbatim>\<open>setDocuments(prev => prev.map(d => d.id === doc.id ? upd(d) : d))\<close>\<close>

definition updateDoc :: "string \<Rightarrow> (DocumentResult \<Rightarrow> DocumentResult) \<Rightarrow> AppState \<Rightarrow> AppState" where
  "updateDoc i upd st = st\<lparr>documents := map (\<lambda>d. if doc_id d = i then upd d else d) (documents st)\<rparr>"

text \<open>One turn of the loop of \<^verbatim>\<open>runExtraction\<close>, for the document at position \<open>i\<close>.\<close>

definition extractStep :: "Env \<Rightarrow> FieldDefinition list \<Rightarrow> nat \<Rightarrow> DocumentResult \<Rightarrow> AppState \<Rightarrow> AppState" where
  "extractStep env flds i doc st =
     (if status doc = Success then st
      else
        let st1 = updateDoc (doc_id doc) (\<lambda>d. d\<lparr>status := Processing\<rparr>) st;
            (sent, r) = processDocument env i doc flds;
            st2 = st1\<lparr>extractCalls := extractCalls st1 @ map (Pair i) sent\<rparr>
        in case r of
             Inr result \<Rightarrow> updateDoc (doc_id doc) (\<lambda>d. d\<lparr>status := Success, data := result\<rparr>) st2
           | Inl err \<Rightarrow> updateDoc (doc_id doc)
                         (\<lambda>d. d\<lparr>status := Error, errorMsg := Some ''Extraction failed''\<rparr>) st2)"

fun extractLoop :: "Env \<Rightarrow> FieldDefinition list \<Rightarrow> nat \<Rightarrow> DocumentResult list \<Rightarrow> AppState \<Rightarrow> AppState" where
  "extractLoop env flds i [] st = st"
| "extractLoop env flds i (doc # docsToProcess) st =
     extractLoop env flds (Suc i) docsToProcess (extractStep env flds i doc st)"

definition runExtraction :: "Env \<Rightarrow> FieldDefinition list \<Rightarrow> AppState \<Rightarrow> AppState" where
  "runExtraction env flds st =
     (if length (documents st) = 0 then st
      else (extractLoop env flds 0 (documents st) (st\<lparr>isProcessing := True\<rparr>))
             \<lparr>isProcessing := False\<rparr>)"

definition analysisError :: ReconcileResult where
  "analysisError = \<lparr>report = ''An error occurred during analysis.'', code = []\<rparr>"

text \<open>
  \<^verbatim>\<open>runReconciliation\<close>. The result is a sum so that an exception leaving the handler
  would show as \<^const>\<open>Inl\<close>; the \<^verbatim>\<open>catch\<close> branch turns the one call that can throw
  into a state.
\<close>

definition runReconciliation :: "Env \<Rightarrow> FieldDefinition list \<Rightarrow> AppState \<Rightarrow> js_error + AppState" where
  "runReconciliation env flds st =
     (let successDocs = filter (\<lambda>d. status d = Success) (documents st) in
      if length successDocs = 0 then
        Inr (st\<lparr>alerts := alerts st @ [''Please extract data from documents first (Tick phase).'']\<rparr>)
      else if length (referenceData st) = 0 then
        Inr (st\<lparr>alerts := alerts st @ [''Please upload a reference dataset.'']\<rparr>)
      else
        let st1 = st\<lparr>isReconciling := True, reconcileResult := None\<rparr>;
            (sent, r) = reconcileData env (documents st) flds (referenceData st) (reconcilePrompt st);
            st2 = st1\<lparr>reconcileCalls := reconcileCalls st1 @ sent\<rparr>
        in case r of
             Inr result \<Rightarrow> Inr (st2\<lparr>reconcileResult := Some result, isReconciling := False\<rparr>)
           | Inl err \<Rightarrow> Inr (st2\<lparr>reconcileResult := Some analysisError, isReconciling := False\<rparr>))"

section \<open>App.tsx: the results table\<close>



section \<open>utils.ts: the table of a report\<close>

text \<open>
  \<^verbatim>\<open>parseMarkdownTable\<close>. A line is a row when, trimmed, it starts and ends with a
  pipe. The separator test is \<^verbatim>\<open>line.replace(/\|/g, '').trim().match(/^-+$/)\<close>; the cells
  are \<^verbatim>\<open>line.split('|').slice(1, -1).map(c => c.trim())\<close>.
\<close>

definition isPipeRow :: "string \<Rightarrow> bool" where
  "isPipeRow line = (startsWith (CHR ''|'') line \<and> endsWith (CHR ''|'') line)"

definition isSeparatorLine :: "string \<Rightarrow> bool" where
  "isSeparatorLine line =
     (let t = trim (filter (\<lambda>c. c \<noteq> CHR ''|'') line)
      in t \<noteq> [] \<and> list_all (\<lambda>c. c = CHR ''-'') t)"

definition tableCells :: "string \<Rightarrow> string list" where
  "tableCells line = map trim (butlast (tl (split_on (CHR ''|'') line)))"

text \<open>
  The loop over the lines, with the rows collected so far and the flag \<^verbatim>\<open>tableStarted\<close>.
  A separator row is skipped, any other row is kept and sets the flag, an empty line after
  the flag is set ends the loop, and every other line is passed over.
\<close>

fun parseLines :: "string list \<Rightarrow> string list list \<Rightarrow> bool \<Rightarrow> string list list" where
  "parseLines [] data' tableStarted = data'"
| "parseLines (l # lines) data' tableStarted =
     (let line = trim l in
      if isPipeRow line then
        (if isSeparatorLine line then parseLines lines data' tableStarted
         else parseLines lines (data' @ [tableCells line]) True)
      else if tableStarted \<and> line = [] then data'
      else parseLines lines data' tableStarted)"

definition parseMarkdownTable :: "string \<Rightarrow> string list list option" where
  "parseMarkdownTable markdown =
     (let data' = parseLines (split_on (CHR 0x0A) markdown) [] False
      in if length data' > 0 then Some data' else None)"

text \<open>The sheet \<^verbatim>\<open>Joined Data Details\<close> of the export, when there is a result with a table.\<close>

definition joinedDataDetails :: "ReconcileResult option \<Rightarrow> string list list option" where
  "joinedDataDetails reconcileResult' =
     (case reconcileResult' of None \<Rightarrow> None | Some r \<Rightarrow> parseMarkdownTable (report r))"

text \<open>The rows the loop keeps from a run of row lines: the cells of those that are no separator.\<close>

definition tableRowsOf :: "string list \<Rightarrow> string list list" where
  "tableRowsOf tbl = map (\<lambda>l. tableCells (trim l)) (filter (\<lambda>l. \<not> isSeparatorLine (trim l)) tbl)"

section \<open>utils.ts: file names in the archive\<close>





lemma digitsOf_nonempty: "digitsOf n \<noteq> []"
  by (subst digitsOf.simps) simp









section \<open>utils.ts: the rows of the first sheet\<close>

definition statusText :: "Status \<Rightarrow> string" where
  "statusText s = (case s of Idle \<Rightarrow> ''idle'' | Processing \<Rightarrow> ''processing''
                   | Success \<Rightarrow> ''success'' | Error \<Rightarrow> ''error'')"

text \<open>\<^verbatim>\<open>extracted?.value || ''\<close>\<close>

definition exportValue :: "DocumentResult \<Rightarrow> FieldDefinition \<Rightarrow> jsvalue" where
  "exportValue doc field = orElse (extractedValue doc field) (JStr [])"

text \<open>\<^verbatim>\<open>extracted?.box_2d ? JSON.stringify(extracted.box_2d) : ''\<close>\<close>

definition exportCoords :: "(int \<Rightarrow> string) \<Rightarrow> DocumentResult \<Rightarrow> FieldDefinition \<Rightarrow> jsvalue" where
  "exportCoords big doc field =
     (case map_of (data doc) (field_key field) of
        None \<Rightarrow> JStr []
      | Some extracted \<Rightarrow>
          (case box_2d extracted of None \<Rightarrow> JStr [] | Some b \<Rightarrow> JStr (JSON_stringify big b)))"

text \<open>
  The row object of a document: the two fixed columns, then for each field its value
  column and its coordinate column, assigned in the order of the field list. A column is
  a property of the row named by the column header, so two fields whose headers coincide
  write to the same property, and the later assignment stays.
\<close>

definition dataRow :: "(int \<Rightarrow> string) \<Rightarrow> FieldDefinition list \<Rightarrow> DocumentResult \<Rightarrow> row" where
  "dataRow big flds doc =
     fold (\<lambda>field row.
             setProp (field_name field @ '' (Coords)'') (exportCoords big doc field)
               (setProp (field_name field) (exportValue doc field) row))
       flds
       [(''File Name'', JStr (fileName doc)), (''Status'', JStr (statusText (status doc)))]"

definition dataRows :: "(int \<Rightarrow> string) \<Rightarrow> FieldDefinition list \<Rightarrow> DocumentResult list \<Rightarrow> row list" where
  "dataRows big flds docs = map (dataRow big flds) docs"

section \<open>DocumentViewer.tsx: the label of a box\<close>



section \<open>Outcome of a run of extraction\<close>

text \<open>
  The record a document ends a run with, as a function of the document and of the outcome
  of its own call only: a document already extracted is left alone.
\<close>

definition finalDoc :: "Env \<Rightarrow> FieldDefinition list \<Rightarrow> nat \<Rightarrow> DocumentResult \<Rightarrow> DocumentResult" where
  "finalDoc env flds i d =
     (if status d = Success then d
      else case snd (processDocument env i d flds) of
             Inr result \<Rightarrow> d\<lparr>status := Success, data := result\<rparr>
           | Inl err \<Rightarrow> d\<lparr>status := Error, errorMsg := Some ''Extraction failed''\<rparr>)"

text \<open>The requests sent for the document at position \<open>i\<close> of a run.\<close>

definition sentFor :: "Env \<Rightarrow> FieldDefinition list \<Rightarrow> nat \<Rightarrow> DocumentResult \<Rightarrow> (nat \<times> ExtractRequest) list" where
  "sentFor env flds i d =
     (if status d = Success then [] else map (Pair i) (fst (processDocument env i d flds)))"

text \<open>The remote extraction calls issued during one run: those the run adds to the log.\<close>

definition issuedBy :: "Env \<Rightarrow> FieldDefinition list \<Rightarrow> AppState \<Rightarrow> (nat \<times> ExtractRequest) list" where
  "issuedBy env flds st = drop (length (extractCalls st)) (extractCalls (runExtraction env flds st))"

section \<open>Example data\<close>

definition demoDoc :: "string \<Rightarrow> Status \<Rightarrow> DocumentResult" where
  "demoDoc i s = \<lparr>doc_id = i, doc_file = ''JVBERi0='', fileName = i @ ''.pdf'',
     fileType = ''application/pdf'', previewUrl = None, status = s, errorMsg = None, data = []\<rparr>"

definition demoState :: "DocumentResult list \<Rightarrow> row list \<Rightarrow> AppState" where
  "demoState docs ref = \<lparr>documents = docs, isProcessing = False, referenceData = ref,
     reconcilePrompt = ''Compare the amounts.'', isReconciling = False, reconcileResult = None,
     alerts = [], extractCalls = [], reconcileCalls = []\<rparr>"

text \<open>
  An environment in which the extraction call for the document at position 0 is rejected,
  every other one answers with an empty object, and reconciliation calls are rejected.
\<close>

definition demoEnv :: Env where
  "demoEnv = \<lparr>API_KEY = Some ''key'',
     readAsDataURL = (\<lambda>f. Some (''data:application/pdf;base64,'' @ f)),
     extractContent = (\<lambda>i req. if i = 0 then None else Some (Some ''{}'')),
     JSON_parse = (\<lambda>t. if t = ''{}'' then Some [] else None),
     reconcileContent = (\<lambda>req. None)\<rparr>"




definition boxDoc :: DocumentResult where
  "boxDoc = (demoDoc ''b'' Success)
     \<lparr>data := [(''invoice_number'',
                \<lparr>ev_value = JStr ''INV-001'', box_2d = Some [100, 200, 300, 400]\<rparr>)]\<rparr>"

text \<open>A text for the numbers beyond the safe integers; the examples have none.\<close>

definition demoBig :: "int \<Rightarrow> string" where
  "demoBig i = ''1e+21''"

text \<open>
  Two registries in which the name of one field is the coordinate header of the other, in
  either order, and a document with a total and its box and an empty value for the other
  field.
\<close>

definition totalThenCoords :: "FieldDefinition list" where
  "totalThenCoords = addFields [(''u1'', ''Total''), (''u2'', ''Total (Coords)'')] []"


definition totalDoc :: DocumentResult where
  "totalDoc = (demoDoc ''t'' Success)
     \<lparr>data := [(''total'', \<lparr>ev_value = JStr ''12'', box_2d = Some [100, 200, 300, 400]\<rparr>),
               (''total__coords_'', \<lparr>ev_value = JStr [], box_2d = None\<rparr>)]\<rparr>"

section \<open>Properties of the key\<close>

definition isKeyChar :: "char \<Rightarrow> bool" where
  "isKeyChar c = (c \<in> set (lowerChars @ digitChars @ ''_''))"

lemma toLowerChar_alnum:
  "isAlnum c \<Longrightarrow> isKeyChar (toLowerChar c)"
  unfolding isAlnum_def isKeyChar_def toLowerChar_def upperChars_def lowerChars_def digitChars_def
  by auto

lemma toLowerChar_underscore: "toLowerChar (CHR ''_'') = CHR ''_''"
  by (simp add: toLowerChar_def upperChars_def lowerChars_def)

lemma isKeyChar_underscore: "isKeyChar (CHR ''_'')"
  by (simp add: isKeyChar_def)

lemma isKeyChar_fixed:
  "isKeyChar c \<Longrightarrow> toLowerChar (if isAlnum c then c else CHR ''_'') = c"
  unfolding isAlnum_def isKeyChar_def toLowerChar_def upperChars_def lowerChars_def digitChars_def
  by auto

lemma sanitizeKey_chars: "list_all isKeyChar (sanitizeKey n)"
  by (induction n)
     (simp_all add: sanitizeKey_def toLowerCase_def replaceNonAlnum_def
        toLowerChar_alnum toLowerChar_underscore isKeyChar_underscore)

lemma sanitizeKey_fixed: "list_all isKeyChar s \<Longrightarrow> sanitizeKey s = s"
  by (induction s)
     (simp_all add: sanitizeKey_def toLowerCase_def replaceNonAlnum_def isKeyChar_fixed)

text \<open>
  C7. The key of a field name is the name with every character outside
  \<^verbatim>\<open>[A-Za-z0-9]\<close> replaced by an underscore and then put in lower case; it has the length of
  the name, it holds lower-case letters, digits and underscores only, and sanitizing a key
  again gives the same key.
\<close>

theorem sanitizeKey_idempotent:
  "sanitizeKey n = map (\<lambda>c. toLowerChar (if isAlnum c then c else CHR ''_'')) n
   \<and> list_all isKeyChar (sanitizeKey n)
   \<and> sanitizeKey (sanitizeKey n) = sanitizeKey n"
proof -
  have "sanitizeKey n = map (\<lambda>c. toLowerChar (if isAlnum c then c else CHR ''_'')) n"
    by (simp add: sanitizeKey_def toLowerCase_def replaceNonAlnum_def)
  moreover have "list_all isKeyChar (sanitizeKey n)"
    by (rule sanitizeKey_chars)
  moreover have "sanitizeKey (sanitizeKey n) = sanitizeKey n"
    by (rule sanitizeKey_fixed) (rule sanitizeKey_chars)
  ultimately show ?thesis by simp
qed

theorem sanitizeKey_idempotent_witness:
  "list_all isKeyChar (sanitizeKey ''Invoice Number'')
   \<and> sanitizeKey (sanitizeKey ''Invoice Number'') = sanitizeKey ''Invoice Number''"
  using sanitizeKey_idempotent [of "''Invoice Number''"] by blast

lemma sanitizeKey_example: "sanitizeKey ''Invoice Number'' = ''invoice_number''"
  by (simp add: sanitizeKey_def toLowerCase_def replaceNonAlnum_def isAlnum_def toLowerChar_def
        upperChars_def lowerChars_def digitChars_def)

section \<open>Properties of the colour\<close>

lemma addFields_length:
  "list_all (\<lambda>(u, n). trim n \<noteq> []) ops \<Longrightarrow> length (addFields ops fs) = length fs + length ops"
  by (induction ops arbitrary: fs) (auto simp: addField_def)

lemma addFields_prefix:
  "i < length fs \<Longrightarrow> addFields ops fs ! i = fs ! i"
proof (induction ops arbitrary: fs)
  case Nil
  then show ?case by simp
next
  case (Cons op ops)
  obtain u n where op: "op = (u, n)" by (cases op)
  have "i < length (addField u n fs)"
    using Cons.prems by (simp add: addField_def)
  then have "addFields ops (addField u n fs) ! i = addField u n fs ! i"
    by (rule Cons.IH)
  also have "\<dots> = fs ! i"
    using Cons.prems by (simp add: addField_def nth_append)
  finally show ?case by (simp add: op)
qed

text \<open>
  C8, as the claim states it, fails: the colour is indexed by the number of fields in the
  registry when \<^verbatim>\<open>addField\<close> runs, not by the creation order. After two fields are
  added and the first is removed, the third field created gets the second colour of the
  palette, not the third.
\<close>

theorem addField_creation_order_counterexample:
  "field_color (last (addField ''u3'' ''C'' (removeField ''u1''
      (addField ''u2'' ''B'' (addField ''u1'' ''A'' [])))))
   = COLORS ! 1
   \<and> COLORS ! 1 \<noteq> COLORS ! (2 mod length COLORS)"
  by (simp add: addField_def removeField_def trim_def isWhiteSpace_def getNextColor_def COLORS_def)

text \<open>
  C8, amended. In a run of \<^verbatim>\<open>addField\<close> calls with non-blank names and no removal in
  between, started on a registry of \<open>m\<close> fields, the \<open>k\<close>-th field added receives
  \<open>palette[(m + k) mod |palette|]\<close>: the index is the number of fields in the registry at
  the moment of the call. Started on the empty registry it is the creation index.
\<close>

theorem addField_color:
  assumes "list_all (\<lambda>(u, n). trim n \<noteq> []) ops" and "k < length ops"
  shows "field_color (addFields ops init ! (length init + k))
         = COLORS ! ((length init + k) mod length COLORS)"
  using assms
proof (induction ops arbitrary: init k)
  case Nil
  then show ?case by simp
next
  case (Cons op ops)
  obtain u n where op: "op = (u, n)" by (cases op)
  from Cons.prems op have nb: "trim n \<noteq> []" and rest: "list_all (\<lambda>(u, n). trim n \<noteq> []) ops"
    by simp_all
  let ?new = "\<lparr>field_id = u, field_name = n, field_key = sanitizeKey n,
               field_color = getNextColor (length init)\<rparr>"
  have step: "addField u n init = init @ [?new]"
    using nb by (simp add: addField_def)
  show ?case
  proof (cases k)
    case 0
    have "addFields ops (init @ [?new]) ! length init = (init @ [?new]) ! length init"
      by (rule addFields_prefix) simp
    then show ?thesis
      using 0 by (simp add: op step getNextColor_def)
  next
    case (Suc j)
    then have "j < length ops" using Cons.prems by simp
    from Cons.IH [OF rest this, of "init @ [?new]"] show ?thesis
      using Suc by (simp add: op step)
  qed
qed

theorem addField_color_witness:
  "list_all (\<lambda>(u, n). trim n \<noteq> []) [(''u1'', ''A''), (''u2'', ''B'')] \<and> (1::nat) < length [(''u1'', ''A''), (''u2'', ''B'')]
   \<and> field_color (addFields [(''u1'', ''A''), (''u2'', ''B'')] initialFields ! (length initialFields + 1))
       = ''#8b5cf6''"
proof -
  have h1: "list_all (\<lambda>(u, n). trim n \<noteq> []) [(''u1'', ''A''), (''u2'', ''B'')]"
    by (simp add: trim_def isWhiteSpace_def)
  have h2: "(1::nat) < length [(''u1'', ''A''), (''u2'', ''B'')]"
    by simp
  show ?thesis
    using h1 h2 addField_color [OF h1 h2, of initialFields]
    by (simp add: initialFields_def COLORS_def)
qed

section \<open>Properties of extraction\<close>

lemma finalDoc_id: "doc_id (finalDoc env flds i d) = doc_id d"
  by (simp add: finalDoc_def split: sum.splits)

lemma extractStep_calls:
  "extractCalls (extractStep env flds i doc st) = extractCalls st @ sentFor env flds i doc"
  by (simp add: extractStep_def sentFor_def updateDoc_def Let_def split: prod.splits sum.splits)

lemma extractLoop_calls:
  "extractCalls (extractLoop env flds i docs st)
   = extractCalls st @ concat (map (\<lambda>(j, d). sentFor env flds j d) (enumerate i docs))"
  by (induction docs arbitrary: i st) (simp_all add: extractStep_calls)

lemma updateDoc_other:
  assumes "documents st = done @ doc # rest" "distinct (map doc_id (done @ doc # rest))"
    and "doc_id (upd doc) = doc_id doc"
  shows "documents (updateDoc (doc_id doc) upd st) = done @ upd doc # rest"
proof -
  have a: "map (\<lambda>d. if doc_id d = doc_id doc then upd d else d) done = done"
  proof (rule map_idI)
    fix x assume "x \<in> set done"
    then have "doc_id x \<noteq> doc_id doc" using assms(2) by (auto simp: image_iff)
    then show "(if doc_id x = doc_id doc then upd x else x) = x" by simp
  qed
  have b: "map (\<lambda>d. if doc_id d = doc_id doc then upd d else d) rest = rest"
  proof (rule map_idI)
    fix x assume "x \<in> set rest"
    then have "doc_id x \<noteq> doc_id doc" using assms(2) by (auto simp: image_iff)
    then show "(if doc_id x = doc_id doc then upd x else x) = x" by simp
  qed
  show ?thesis
    by (simp add: updateDoc_def assms(1) a b)
qed

lemma extractStep_documents:
  assumes "documents st = done @ doc # rest" "distinct (map doc_id (done @ doc # rest))"
  shows "documents (extractStep env flds i doc st) = done @ finalDoc env flds i doc # rest"
proof (cases "status doc = Success")
  case True
  then show ?thesis by (simp add: extractStep_def finalDoc_def assms(1))
next
  case False
  obtain sent r where pd: "processDocument env i doc flds = (sent, r)"
    by (cases "processDocument env i doc flds")
  let ?st1 = "updateDoc (doc_id doc) (\<lambda>d. d\<lparr>status := Processing\<rparr>) st"
  let ?st2 = "?st1\<lparr>extractCalls := extractCalls ?st1 @ map (Pair i) sent\<rparr>"
  have d1: "documents ?st2 = done @ doc\<lparr>status := Processing\<rparr> # rest"
    using updateDoc_other [OF assms, of "\<lambda>d. d\<lparr>status := Processing\<rparr>"] by simp
  have dist: "distinct (map doc_id (done @ doc\<lparr>status := Processing\<rparr> # rest))"
    using assms(2) by simp
  have id1: "doc_id (doc\<lparr>status := Processing\<rparr>) = doc_id doc" by simp
  show ?thesis
  proof (cases r)
    case (Inl err)
    have "documents (updateDoc (doc_id (doc\<lparr>status := Processing\<rparr>))
             (\<lambda>d. d\<lparr>status := Error, errorMsg := Some ''Extraction failed''\<rparr>) ?st2)
          = done @ (doc\<lparr>status := Processing\<rparr>)\<lparr>status := Error, errorMsg := Some ''Extraction failed''\<rparr> # rest"
      by (rule updateDoc_other [OF d1 dist]) simp
    then show ?thesis
      using False Inl pd by (simp add: extractStep_def finalDoc_def Let_def)
  next
    case (Inr result)
    have "documents (updateDoc (doc_id (doc\<lparr>status := Processing\<rparr>))
             (\<lambda>d. d\<lparr>status := Success, data := result\<rparr>) ?st2)
          = done @ (doc\<lparr>status := Processing\<rparr>)\<lparr>status := Success, data := result\<rparr> # rest"
      by (rule updateDoc_other [OF d1 dist]) simp
    then show ?thesis
      using False Inr pd by (simp add: extractStep_def finalDoc_def Let_def)
  qed
qed

lemma extractLoop_documents:
  assumes "documents st = done @ rest" "distinct (map doc_id (done @ rest))"
  shows "documents (extractLoop env flds i rest st)
         = done @ map (\<lambda>(j, d). finalDoc env flds j d) (enumerate i rest)"
  using assms
proof (induction rest arbitrary: i st "done")
  case Nil
  then show ?case by simp
next
  case (Cons doc rest)
  have s: "documents (extractStep env flds i doc st) = (done @ [finalDoc env flds i doc]) @ rest"
    using extractStep_documents [OF Cons.prems] by simp
  have d: "distinct (map doc_id ((done @ [finalDoc env flds i doc]) @ rest))"
    using Cons.prems(2) by (simp add: finalDoc_id)
  show ?case
    using Cons.IH [OF s d] by simp
qed

lemma runExtraction_calls:
  "extractCalls (runExtraction env flds st)
   = extractCalls st @ concat (map (\<lambda>(j, d). sentFor env flds j d) (enumerate 0 (documents st)))"
  by (simp add: runExtraction_def extractLoop_calls)

lemma issuedBy_eq:
  "issuedBy env flds st = concat (map (\<lambda>(j, d). sentFor env flds j d) (enumerate 0 (documents st)))"
  by (simp add: issuedBy_def runExtraction_calls)

lemma sentFor_fst: "p \<in> set (sentFor env flds j d) \<Longrightarrow> fst p = j \<and> status d \<noteq> Success"
  by (auto simp: sentFor_def split: if_splits)

lemma issuedBy_not_success:
  assumes "p \<in> set (issuedBy env flds st)"
  shows "fst p < length (documents st) \<and> status (documents st ! fst p) \<noteq> Success"
proof -
  from assms obtain j d where jd: "(j, d) \<in> set (enumerate 0 (documents st))"
    and p: "p \<in> set (sentFor env flds j d)"
    by (auto simp: issuedBy_eq)
  from jd have "j < length (documents st)" "d = documents st ! j"
    by (auto simp: in_set_enumerate_eq)
  with sentFor_fst [OF p] show ?thesis by simp
qed

lemma extractLoop_all_success:
  "list_all (\<lambda>d. status d = Success) docs \<Longrightarrow> extractLoop env flds i docs st = st"
  by (induction docs arbitrary: i st) (simp_all add: extractStep_def)

lemma runExtraction_all_success:
  assumes "list_all (\<lambda>d. status d = Success) (documents st)"
  shows "documents (runExtraction env flds st) = documents st"
    and "extractCalls (runExtraction env flds st) = extractCalls st"
  using assms by (simp_all add: runExtraction_def extractLoop_all_success)

text \<open>
  C1. The turn of the loop for a document whose status is \<^verbatim>\<open>success\<close> leaves the state
  as it is. The calls a run of \<^verbatim>\<open>runExtraction\<close> issues are appended to the log, and none
  of them is for a position whose document had status \<^verbatim>\<open>success\<close> when the run started.
  On a list in which every document is \<^verbatim>\<open>success\<close> the run issues no call, and neither
  does a second run after it.
\<close>

theorem runExtraction_skips_success:
  "(status doc = Success \<longrightarrow> extractStep env flds k doc st = st)
   \<and> extractCalls (runExtraction env flds st) = extractCalls st @ issuedBy env flds st
   \<and> (\<forall>i < length (documents st).
         status (documents st ! i) = Success \<longrightarrow> i \<notin> fst ` set (issuedBy env flds st))
   \<and> (list_all (\<lambda>d. status d = Success) (documents st) \<longrightarrow>
         issuedBy env flds st = []
         \<and> issuedBy env2 flds (runExtraction env flds st) = [])"
proof (intro conjI allI impI)
  assume "status doc = Success"
  then show "extractStep env flds k doc st = st"
    by (simp add: extractStep_def)
next
  show "extractCalls (runExtraction env flds st) = extractCalls st @ issuedBy env flds st"
    by (simp add: issuedBy_def runExtraction_calls)
next
  fix i assume "i < length (documents st)" and s: "status (documents st ! i) = Success"
  show "i \<notin> fst ` set (issuedBy env flds st)"
  proof
    assume "i \<in> fst ` set (issuedBy env flds st)"
    then obtain p where "p \<in> set (issuedBy env flds st)" "fst p = i" by auto
    with issuedBy_not_success [of p env flds st] s show False by simp
  qed
next
  assume a: "list_all (\<lambda>d. status d = Success) (documents st)"
  then show "issuedBy env flds st = []"
    by (simp add: issuedBy_def runExtraction_all_success)
  from a have "list_all (\<lambda>d. status d = Success) (documents (runExtraction env flds st))"
    by (simp add: runExtraction_all_success)
  then show "issuedBy env2 flds (runExtraction env flds st) = []"
    by (simp add: issuedBy_def runExtraction_all_success)
qed

theorem runExtraction_skips_success_witness:
  "status (documents (demoState [demoDoc ''a'' Success, demoDoc ''b'' Idle] []) ! 0) = Success
   \<and> 0 \<notin> fst ` set (issuedBy demoEnv [] (demoState [demoDoc ''a'' Success, demoDoc ''b'' Idle] []))
   \<and> list_all (\<lambda>d. status d = Success) (documents (demoState [demoDoc ''a'' Success] []))
   \<and> issuedBy demoEnv [] (demoState [demoDoc ''a'' Success] []) = []"
proof -
  let ?S = "demoState [demoDoc ''a'' Success, demoDoc ''b'' Idle] []"
  let ?T = "demoState [demoDoc ''a'' Success] []"
  have h1: "0 < length (documents ?S)" and h2: "status (documents ?S ! 0) = Success"
    by (simp_all add: demoState_def demoDoc_def)
  have h3: "list_all (\<lambda>d. status d = Success) (documents ?T)"
    by (simp add: demoState_def demoDoc_def)
  from runExtraction_skips_success [of _ demoEnv "[]" _ ?S] h1 h2
  have "0 \<notin> fst ` set (issuedBy demoEnv [] ?S)" by blast
  moreover from runExtraction_skips_success [of _ demoEnv "[]" _ ?T demoEnv] h3
  have "issuedBy demoEnv [] ?T = []" by blast
  ultimately show ?thesis using h2 h3 by blast
qed

lemma runExtraction_documents:
  assumes "distinct (map doc_id (documents st))"
  shows "documents (runExtraction env flds st)
         = map (\<lambda>(j, d). finalDoc env flds j d) (enumerate 0 (documents st))"
proof (cases "documents st")
  case Nil
  then show ?thesis by (simp add: runExtraction_def)
next
  case (Cons d ds)
  have "documents (extractLoop env flds 0 (documents st) (st\<lparr>isProcessing := True\<rparr>))
        = [] @ map (\<lambda>(j, d). finalDoc env flds j d) (enumerate 0 (documents st))"
    by (rule extractLoop_documents) (simp_all add: assms)
  then show ?thesis using Cons by (simp add: runExtraction_def)
qed

lemma runExtraction_nth:
  assumes "distinct (map doc_id (documents st))" "j < length (documents st)"
  shows "documents (runExtraction env flds st) ! j = finalDoc env flds j (documents st ! j)"
  using assms by (simp add: runExtraction_documents nth_enumerate_eq)

lemma processDocument_extractContent_upd:
  "j \<noteq> i \<Longrightarrow>
   processDocument (env\<lparr>extractContent := (extractContent env)(i := g)\<rparr>) j d flds
   = processDocument env j d flds"
  by (simp add: processDocument_def apiKeyMissing_def Let_def split: option.splits)

text \<open>
  C2. Documents have distinct identifiers. If the extraction of the document at position
  \<open>i\<close> fails, that document ends the run with status \<^verbatim>\<open>error\<close> and the message
  \<^verbatim>\<open>Extraction failed\<close>; every other document ends the run with the record it would have
  in any world that differs only in the outcome for position \<open>i\<close>; and every document
  that was not yet extracted, before or after \<open>i\<close>, is processed and ends with the status
  its own call decides.
\<close>

theorem runExtraction_isolation:
  assumes "distinct (map doc_id (documents st))"
    and "i < length (documents st)"
    and "status (documents st ! i) \<noteq> Success"
    and "snd (processDocument env i (documents st ! i) flds) = Inl err"
    and "\<forall>j < length (documents st). j \<noteq> i \<longrightarrow>
           snd (processDocument env' j (documents st ! j) flds)
           = snd (processDocument env j (documents st ! j) flds)"
  shows "length (documents (runExtraction env flds st)) = length (documents st)
     \<and> documents (runExtraction env flds st) ! i
         = (documents st ! i)\<lparr>status := Error, errorMsg := Some ''Extraction failed''\<rparr>
     \<and> (\<forall>j < length (documents st). j \<noteq> i \<longrightarrow>
           documents (runExtraction env flds st) ! j = documents (runExtraction env' flds st) ! j)
     \<and> (\<forall>j < length (documents st). status (documents st ! j) \<noteq> Success \<longrightarrow>
           status (documents (runExtraction env flds st) ! j)
           = (case snd (processDocument env j (documents st ! j) flds) of
                Inr result \<Rightarrow> Success | Inl e \<Rightarrow> Error))"
proof (intro conjI allI impI)
  show "length (documents (runExtraction env flds st)) = length (documents st)"
    by (simp add: runExtraction_documents assms(1))
next
  show "documents (runExtraction env flds st) ! i
        = (documents st ! i)\<lparr>status := Error, errorMsg := Some ''Extraction failed''\<rparr>"
    using assms(3,4) by (simp add: runExtraction_nth [OF assms(1,2)] finalDoc_def)
next
  fix j assume j: "j < length (documents st)" "j \<noteq> i"
  with assms(5) have "finalDoc env' flds j (documents st ! j) = finalDoc env flds j (documents st ! j)"
    by (simp add: finalDoc_def)
  then show "documents (runExtraction env flds st) ! j = documents (runExtraction env' flds st) ! j"
    by (simp add: runExtraction_nth [OF assms(1) j(1)])
next
  fix j assume j: "j < length (documents st)" "status (documents st ! j) \<noteq> Success"
  then show "status (documents (runExtraction env flds st) ! j)
        = (case snd (processDocument env j (documents st ! j) flds) of
             Inr result \<Rightarrow> Success | Inl e \<Rightarrow> Error)"
    by (simp add: runExtraction_nth [OF assms(1) j(1)] finalDoc_def split: sum.splits)
qed

theorem runExtraction_isolation_witness:
  "status (documents (runExtraction demoEnv []
      (demoState [demoDoc ''a'' Idle, demoDoc ''b'' Idle] [])) ! 0) = Error
   \<and> documents (runExtraction demoEnv []
        (demoState [demoDoc ''a'' Idle, demoDoc ''b'' Idle] [])) ! 1
     = documents (runExtraction
        (demoEnv\<lparr>extractContent := (extractContent demoEnv)(0 := \<lambda>req. Some (Some ''{}''))\<rparr>) []
        (demoState [demoDoc ''a'' Idle, demoDoc ''b'' Idle] [])) ! 1"
proof -
  let ?S = "demoState [demoDoc ''a'' Idle, demoDoc ''b'' Idle] []"
  let ?E = "demoEnv\<lparr>extractContent := (extractContent demoEnv)(0 := \<lambda>req. Some (Some ''{}''))\<rparr>"
  have h1: "distinct (map doc_id (documents ?S))"
    by (simp add: demoState_def demoDoc_def)
  have h2: "0 < length (documents ?S)"
    by (simp add: demoState_def)
  have h3: "status (documents ?S ! 0) \<noteq> Success"
    by (simp add: demoState_def demoDoc_def)
  have h4: "snd (processDocument demoEnv 0 (documents ?S ! 0) []) = Inl RemoteError"
    by (simp add: processDocument_def apiKeyMissing_def demoEnv_def demoState_def demoDoc_def)
  have h5: "\<forall>j < length (documents ?S). j \<noteq> 0 \<longrightarrow>
              snd (processDocument ?E j (documents ?S ! j) [])
              = snd (processDocument demoEnv j (documents ?S ! j) [])"
    by (simp add: processDocument_extractContent_upd)
  have l: "(1::nat) < length (documents ?S)"
    by (simp add: demoState_def)
  from runExtraction_isolation [OF h1 h2 h3 h4 h5] l show ?thesis
    by simp
qed

section \<open>Properties of reconciliation\<close>

lemma reconcileData_fails:
  "apiKeyMissing env \<or> reconcileContent env
      \<lparr>req_extractedData = extractedData docs flds, req_referenceData = ref,
       req_userInstructions = instr\<rparr> = None
   \<Longrightarrow> \<exists>err. snd (reconcileData env docs flds ref instr) = Inl err"
  by (auto simp: reconcileData_def Let_def)

text \<open>
  C3. If no document has status \<^verbatim>\<open>success\<close>, \<^verbatim>\<open>runReconciliation\<close> returns the state
  with the alert that asks to extract data first and nothing else changed; if some document
  has but the reference rows are empty, it returns the state with the alert that asks for a
  reference dataset and nothing else changed. In both cases no request is sent. Whenever a
  run does send a request, some document is \<^verbatim>\<open>success\<close> and the reference rows are not
  empty.
\<close>

theorem runReconciliation_preconditions:
  "((\<forall>d \<in> set (documents st). status d \<noteq> Success) \<longrightarrow>
      runReconciliation env flds st
      = Inr (st\<lparr>alerts := alerts st @ [''Please extract data from documents first (Tick phase).'']\<rparr>))
   \<and> ((\<exists>d \<in> set (documents st). status d = Success) \<and> referenceData st = [] \<longrightarrow>
      runReconciliation env flds st
      = Inr (st\<lparr>alerts := alerts st @ [''Please upload a reference dataset.'']\<rparr>))
   \<and> (\<forall>st'. runReconciliation env flds st = Inr st' \<longrightarrow>
          reconcileCalls st' \<noteq> reconcileCalls st \<longrightarrow>
          (\<exists>d \<in> set (documents st). status d = Success) \<and> referenceData st \<noteq> [])"
proof (intro conjI allI impI)
  assume "\<forall>d \<in> set (documents st). status d \<noteq> Success"
  then have "filter (\<lambda>d. status d = Success) (documents st) = []"
    by (simp add: filter_empty_conv)
  then show "runReconciliation env flds st
      = Inr (st\<lparr>alerts := alerts st @ [''Please extract data from documents first (Tick phase).'']\<rparr>)"
    by (simp add: runReconciliation_def)
next
  assume a: "(\<exists>d \<in> set (documents st). status d = Success) \<and> referenceData st = []"
  then have "filter (\<lambda>d. status d = Success) (documents st) \<noteq> []"
    by (simp add: filter_empty_conv)
  with a show "runReconciliation env flds st
      = Inr (st\<lparr>alerts := alerts st @ [''Please upload a reference dataset.'']\<rparr>)"
    by (simp add: runReconciliation_def)
next
  fix st' assume r: "runReconciliation env flds st = Inr st'"
    and c: "reconcileCalls st' \<noteq> reconcileCalls st"
  show "\<exists>d \<in> set (documents st). status d = Success"
  proof (rule ccontr)
    assume "\<not> (\<exists>d \<in> set (documents st). status d = Success)"
    then have "filter (\<lambda>d. status d = Success) (documents st) = []"
      by (simp add: filter_empty_conv)
    with r c show False by (auto simp: runReconciliation_def)
  qed
  show "referenceData st \<noteq> []"
  proof
    assume "referenceData st = []"
    with r c show False by (auto simp: runReconciliation_def Let_def split: if_splits)
  qed
qed

theorem runReconciliation_preconditions_witness:
  "filter (\<lambda>d. status d = Success) (documents (demoState [demoDoc ''a'' Idle] [])) = []
   \<and> runReconciliation demoEnv [] (demoState [demoDoc ''a'' Idle] [])
       = Inr ((demoState [demoDoc ''a'' Idle] [])
               \<lparr>alerts := [''Please extract data from documents first (Tick phase).'']\<rparr>)
   \<and> referenceData (demoState [demoDoc ''a'' Success] []) = []
   \<and> runReconciliation demoEnv [] (demoState [demoDoc ''a'' Success] [])
       = Inr ((demoState [demoDoc ''a'' Success] [])
               \<lparr>alerts := [''Please upload a reference dataset.'']\<rparr>)"
proof -
  let ?S = "demoState [demoDoc ''a'' Idle] []"
  let ?T = "demoState [demoDoc ''a'' Success] []"
  have h: "\<forall>d \<in> set (documents ?S). status d \<noteq> Success"
    by (simp add: demoState_def demoDoc_def)
  have f: "filter (\<lambda>d. status d = Success) (documents ?S) = []"
    by (simp add: demoState_def demoDoc_def)
  have g: "(\<exists>d \<in> set (documents ?T). status d = Success) \<and> referenceData ?T = []"
    by (simp add: demoState_def demoDoc_def)
  have e: "alerts ?S = []" "alerts ?T = []"
    by (simp_all add: demoState_def)
  from h runReconciliation_preconditions [of ?S demoEnv "[]"]
  have "runReconciliation demoEnv [] ?S
        = Inr (?S\<lparr>alerts := alerts ?S @ [''Please extract data from documents first (Tick phase).'']\<rparr>)"
    by blast
  moreover from g runReconciliation_preconditions [of ?T demoEnv "[]"]
  have "runReconciliation demoEnv [] ?T
        = Inr (?T\<lparr>alerts := alerts ?T @ [''Please upload a reference dataset.'']\<rparr>)"
    by blast
  ultimately show ?thesis using f g e by simp
qed

text \<open>
  C4. When both preconditions hold and the reconciliation call fails, because the API key
  is missing or because the remote call is rejected, \<^verbatim>\<open>runReconciliation\<close> returns
  normally, and the result it stores has the fixed report
  \<^verbatim>\<open>An error occurred during analysis.\<close> and the empty code.
\<close>

theorem runReconciliation_failure:
  assumes "\<exists>d \<in> set (documents st). status d = Success"
    and "referenceData st \<noteq> []"
    and "apiKeyMissing env \<or> reconcileContent env
           \<lparr>req_extractedData = extractedData (documents st) flds,
            req_referenceData = referenceData st,
            req_userInstructions = reconcilePrompt st\<rparr> = None"
  shows "\<exists>st'. runReconciliation env flds st = Inr st'
           \<and> reconcileResult st' = Some \<lparr>report = ''An error occurred during analysis.'', code = []\<rparr>
           \<and> isReconciling st' = False"
proof -
  from assms(1) have f: "filter (\<lambda>d. status d = Success) (documents st) \<noteq> []"
    by (simp add: filter_empty_conv)
  obtain sent r where rd:
    "reconcileData env (documents st) flds (referenceData st) (reconcilePrompt st) = (sent, r)"
    by (cases "reconcileData env (documents st) flds (referenceData st) (reconcilePrompt st)")
  from reconcileData_fails [OF assms(3)] rd obtain err where "r = Inl err" by auto
  with f assms(2) rd show ?thesis
    by (simp add: runReconciliation_def Let_def analysisError_def)
qed

theorem runReconciliation_failure_witness:
  "\<exists>st'. runReconciliation demoEnv []
           (demoState [demoDoc ''a'' Success] [[(''Amount'', JNum 5)]]) = Inr st'
         \<and> reconcileResult st'
             = Some \<lparr>report = ''An error occurred during analysis.'', code = []\<rparr>
         \<and> isReconciling st' = False"
proof -
  let ?S = "demoState [demoDoc ''a'' Success] [[(''Amount'', JNum 5)]]"
  have h1: "\<exists>d \<in> set (documents ?S). status d = Success"
    by (simp add: demoState_def demoDoc_def)
  have h2: "referenceData ?S \<noteq> []"
    by (simp add: demoState_def)
  have h3: "apiKeyMissing demoEnv \<or> reconcileContent demoEnv
              \<lparr>req_extractedData = extractedData (documents ?S) [],
               req_referenceData = referenceData ?S,
               req_userInstructions = reconcilePrompt ?S\<rparr> = None"
    by (simp add: demoEnv_def)
  show ?thesis
    by (rule runReconciliation_failure [OF h1 h2 h3])
qed

section \<open>Properties of the file names\<close>








section \<open>Properties of the rows\<close>

lemma split_on_no_sep: "c \<notin> set s \<Longrightarrow> split_on c s = [s]"
  by (induction s) auto

lemma split_on_append:
  "c \<notin> set s \<Longrightarrow> split_on c (s @ c # t) = s # split_on c t"
  by (induction s) auto

lemma map_of_setProp: "map_of (setProp k v ps) = (map_of ps)(k \<mapsto> v)"
  by (induction ps) (auto simp: fun_eq_iff)

lemma map_of_dataRow_step:
  "map_of (fold (\<lambda>field row.
             setProp (field_name field @ '' (Coords)'') (exportCoords big doc field)
               (setProp (field_name field) (exportValue doc field) row)) (fs @ [g]) init) k
   = (if k = field_name g @ '' (Coords)'' then Some (exportCoords big doc g)
      else if k = field_name g then Some (exportValue doc g)
      else map_of (fold (\<lambda>field row.
             setProp (field_name field @ '' (Coords)'') (exportCoords big doc field)
               (setProp (field_name field) (exportValue doc field) row)) fs init) k)"
  by (simp add: map_of_setProp)


lemma exportCoords_key:
  "field_key g = field_key f \<Longrightarrow> exportCoords big doc g = exportCoords big doc f"
  by (simp add: exportCoords_def)



lemma dataRow_coords:
  assumes "f \<in> set flds"
    and "\<forall>g \<in> set flds. field_name g \<noteq> field_name f @ '' (Coords)''
           \<and> (field_name g = field_name f \<longrightarrow> field_key g = field_key f)"
  shows "map_of (dataRow big flds doc) (field_name f @ '' (Coords)'') = Some (exportCoords big doc f)"
  using assms unfolding dataRow_def
proof (induction flds rule: rev_induct)
  case Nil
  then show ?case by simp
next
  case (snoc g fs)
  show ?case
  proof (cases "field_name g = field_name f")
    case True
    with snoc.prems(2) have "field_key g = field_key f" by simp
    then have "exportCoords big doc g = exportCoords big doc f" by (rule exportCoords_key)
    with True show ?thesis by (simp only: map_of_dataRow_step) simp
  next
    case False
    with snoc.prems have "f \<in> set fs" by auto
    moreover from snoc.prems(2) have "\<forall>g \<in> set fs. field_name g \<noteq> field_name f @ '' (Coords)''
           \<and> (field_name g = field_name f \<longrightarrow> field_key g = field_key f)" by simp
    ultimately have ih: "map_of (fold (\<lambda>field row.
             setProp (field_name field @ '' (Coords)'') (exportCoords big doc field)
               (setProp (field_name field) (exportValue doc field) row)) fs
          [(''File Name'', JStr (fileName doc)), (''Status'', JStr (statusText (status doc)))])
          (field_name f @ '' (Coords)'') = Some (exportCoords big doc f)"
      by (rule snoc.IH)
    from snoc.prems(2) have "field_name g \<noteq> field_name f @ '' (Coords)''" by simp
    with False ih show ?thesis by (simp only: map_of_dataRow_step) simp
  qed
qed



lemma digitsOf_chars: "set (digitsOf n) \<subseteq> set digitChars"
proof (induction n rule: digitsOf.induct)
  case (1 n)
  have "length digitChars = 10" by (simp add: digitChars_def)
  then have d: "\<And>k. k < 10 \<Longrightarrow> digitChar k \<in> set digitChars"
    unfolding digitChar_def by (metis nth_mem)
  show ?case
  proof (cases "n < 10")
    case True
    then show ?thesis by (subst digitsOf.simps) (simp add: d)
  next
    case False
    with "1.IH" show ?thesis by (subst digitsOf.simps) (simp add: d)
  qed
qed

lemma decimal_chars: "set (decimal i) \<subseteq> set ''-0123456789''"
proof -
  have "set digitChars \<subseteq> set ''-0123456789''" by (simp add: digitChars_def)
  with digitsOf_chars have "\<And>n. set (digitsOf n) \<subseteq> set ''-0123456789''" by blast
  then show ?thesis by (simp add: decimal_def)
qed

text \<open>Reading the digits back gives the number: the text is the decimal numeral.\<close>

lemma digitValue_digitChar: "d < 10 \<Longrightarrow> digitValue (digitChar d) = d"
proof -
  assume "d < 10"
  then have "d = 0 \<or> d = 1 \<or> d = 2 \<or> d = 3 \<or> d = 4 \<or> d = 5 \<or> d = 6 \<or> d = 7 \<or> d = 8 \<or> d = 9"
    by arith
  then show ?thesis
    by (elim disjE) (simp_all add: digitValue_def digitChar_def digitChars_def)
qed

lemma readNat_snoc: "readNat (xs @ [c]) = 10 * readNat xs + digitValue c"
  by (simp add: readNat_def)

lemma readNat_digitsOf: "readNat (digitsOf n) = n"
proof (induction n rule: digitsOf.induct)
  case (1 n)
  show ?case
  proof (cases "n < 10")
    case True
    then show ?thesis
      by (subst digitsOf.simps) (simp add: readNat_def digitValue_digitChar)
  next
    case False
    with "1.IH" have "readNat (digitsOf (n div 10)) = n div 10" by simp
    with False show ?thesis
      by (subst digitsOf.simps) (simp add: readNat_snoc digitValue_digitChar)
  qed
qed

lemma readInt_decimal: "readInt (decimal i) = i"
proof (cases "i < 0")
  case True
  then show ?thesis by (simp add: readInt_def decimal_def readNat_digitsOf startsWith_def)
next
  case False
  have "hd (digitsOf (nat i)) \<in> set digitChars"
    using digitsOf_chars [of "nat i"] digitsOf_nonempty [of "nat i"] by (meson hd_in_set subsetD)
  moreover have "CHR ''-'' \<notin> set digitChars" by (simp add: digitChars_def)
  ultimately have "hd (digitsOf (nat i)) \<noteq> CHR ''-''" by metis
  then have "\<not> startsWith (CHR ''-'') (digitsOf (nat i))"
    using digitsOf_nonempty [of "nat i"] by (cases "digitsOf (nat i)") (simp_all add: startsWith_def)
  with False show ?thesis by (simp add: readInt_def decimal_def readNat_digitsOf)
qed

lemma decimal_no_comma: "CHR '','' \<notin> set (decimal i)"
  using decimal_chars [of i] by auto

lemma decimal_chars_comma: "set (decimal i) \<subseteq> set ''-0123456789,''"
proof -
  have "set ''-0123456789'' \<subseteq> set ''-0123456789,''" by (simp add: subset_insertI2)
  with decimal_chars [of i] show ?thesis by (rule order_trans)
qed

lemma box_text_chars:
  "set (decimal a @ '','' @ decimal b @ '','' @ decimal c @ '','' @ decimal e) \<subseteq> set ''-0123456789,''"
proof -
  have c: "set '','' \<subseteq> set ''-0123456789,''" by simp
  show ?thesis
    by (simp only: set_append Un_subset_iff decimal_chars_comma c simp_thms)
qed

lemma split_four:
  assumes "c \<notin> set w" "c \<notin> set x" "c \<notin> set y" "c \<notin> set z"
  shows "split_on c (w @ [c] @ x @ [c] @ y @ [c] @ z) = [w, x, y, z]"
  using assms by (simp add: split_on_append split_on_no_sep)

lemma totalThenCoords_eq:
  "totalThenCoords =
     [\<lparr>field_id = ''u1'', field_name = ''Total'', field_key = ''total'', field_color = ''#ef4444''\<rparr>,
      \<lparr>field_id = ''u2'', field_name = ''Total (Coords)'', field_key = ''total__coords_'',
       field_color = ''#3b82f6''\<rparr>]"
  by (simp add: totalThenCoords_def addField_def trim_def isWhiteSpace_def
        sanitizeKey_def toLowerCase_def replaceNonAlnum_def isAlnum_def toLowerChar_def
        upperChars_def lowerChars_def digitChars_def getNextColor_def COLORS_def)


lemma decimal_examples:
  "decimal 0 = ''0''" "decimal 100 = ''100''" "decimal 200 = ''200''" "decimal 300 = ''300''"
  "decimal 400 = ''400''"
  by (simp_all add: decimal_def digitsOf.simps digitChar_def digitChars_def)

text \<open>
  C9, as the claim states it, fails: the field named \<^verbatim>\<open>Total\<close> has the box 100, 200, 300,
  400 in the document, and a second field is named \<^verbatim>\<open>Total (Coords)\<close>, the header of the
  coordinate column of the first. Both names pass \<^verbatim>\<open>addField\<close>. The value of the second
  field is assigned to that column after the box of the first, so the column holds the
  empty string.
\<close>

theorem exportCoords_collision_counterexample:
  "field_name (totalThenCoords ! 0) = ''Total''
   \<and> map_option box_2d (map_of (data totalDoc) (field_key (totalThenCoords ! 0)))
       = Some (Some [100, 200, 300, 400])
   \<and> map_of (dataRow demoBig totalThenCoords totalDoc) ''Total (Coords)'' = Some (JStr [])"
  by (simp add: totalThenCoords_eq totalDoc_def demoDoc_def
        dataRow_def exportValue_def extractedValue_def orElse_def truthy_def)

text \<open>
  C9, amended. The field \<open>f\<close> is in the field list, no field is named like the coordinate
  column of \<open>f\<close>, and a field with the name of \<open>f\<close> has its key. Then the coordinate column
  of \<open>f\<close> in the row of a document holds: for a box of four safe integers, the four decimal
  numerals between brackets, separated by commas, with no other character, and reading the
  numerals back gives the box; \<^verbatim>\<open>[100,200,300,400]\<close> for the box 100, 200, 300, 400; and
  the empty string when the document has no entry for the field or the entry has no box.
\<close>

theorem exportCoords_serialization:
  assumes "f \<in> set flds"
    and "\<forall>g \<in> set flds. field_name g \<noteq> field_name f @ '' (Coords)''
           \<and> (field_name g = field_name f \<longrightarrow> field_key g = field_key f)"
  shows "(\<forall>extracted a b c e.
       map_of (data doc) (field_key f) = Some extracted \<longrightarrow> box_2d extracted = Some [a, b, c, e] \<longrightarrow>
       safeInt a \<and> safeInt b \<and> safeInt c \<and> safeInt e \<longrightarrow>
         map_of (dataRow big flds doc) (field_name f @ '' (Coords)'')
           = Some (JStr (''['' @ decimal a @ '','' @ decimal b @ '','' @ decimal c @ '','' @ decimal e @ '']''))
         \<and> set (decimal a @ '','' @ decimal b @ '','' @ decimal c @ '','' @ decimal e)
             \<subseteq> set ''-0123456789,''
         \<and> map readInt (split_on (CHR '','')
               (decimal a @ '','' @ decimal b @ '','' @ decimal c @ '','' @ decimal e)) = [a, b, c, e])
   \<and> (\<forall>extracted.
         map_of (data doc) (field_key f) = Some extracted \<longrightarrow>
         box_2d extracted = Some [100, 200, 300, 400] \<longrightarrow>
           map_of (dataRow big flds doc) (field_name f @ '' (Coords)'') = Some (JStr ''[100,200,300,400]''))
   \<and> (map_of (data doc) (field_key f) = None
        \<or> (\<exists>extracted. map_of (data doc) (field_key f) = Some extracted \<and> box_2d extracted = None)
        \<longrightarrow> map_of (dataRow big flds doc) (field_name f @ '' (Coords)'') = Some (JStr []))"
proof -
  have col: "map_of (dataRow big flds doc) (field_name f @ '' (Coords)'') = Some (exportCoords big doc f)"
    using assms by (rule dataRow_coords)
  show ?thesis
  proof (intro conjI allI impI)
    fix extracted a b c e
    assume e: "map_of (data doc) (field_key f) = Some extracted" "box_2d extracted = Some [a, b, c, e]"
      and s: "safeInt a \<and> safeInt b \<and> safeInt c \<and> safeInt e"
    from e s have "exportCoords big doc f
        = JStr (''['' @ decimal a @ '','' @ decimal b @ '','' @ decimal c @ '','' @ decimal e @ '']'')"
      by (simp add: exportCoords_def JSON_stringify_def numberToString_def)
    with col show "map_of (dataRow big flds doc) (field_name f @ '' (Coords)'')
        = Some (JStr (''['' @ decimal a @ '','' @ decimal b @ '','' @ decimal c @ '','' @ decimal e @ '']''))"
      by simp
    show "set (decimal a @ '','' @ decimal b @ '','' @ decimal c @ '','' @ decimal e)
        \<subseteq> set ''-0123456789,''"
      by (rule box_text_chars)
    have "split_on (CHR '','')
            (decimal a @ [CHR '',''] @ decimal b @ [CHR '',''] @ decimal c @ [CHR '',''] @ decimal e)
          = [decimal a, decimal b, decimal c, decimal e]"
      by (rule split_four) (rule decimal_no_comma)+
    then show "map readInt (split_on (CHR '','')
        (decimal a @ '','' @ decimal b @ '','' @ decimal c @ '','' @ decimal e)) = [a, b, c, e]"
      by (simp add: readInt_decimal)
  next
    fix extracted
    assume "map_of (data doc) (field_key f) = Some extracted"
      "box_2d extracted = Some [100, 200, 300, 400]"
    then have "exportCoords big doc f = JStr ''[100,200,300,400]''"
      by (simp add: exportCoords_def JSON_stringify_def numberToString_def safeInt_def
            decimal_examples)
    with col show "map_of (dataRow big flds doc) (field_name f @ '' (Coords)'')
        = Some (JStr ''[100,200,300,400]'')"
      by simp
  next
    assume "map_of (data doc) (field_key f) = None
            \<or> (\<exists>extracted. map_of (data doc) (field_key f) = Some extracted \<and> box_2d extracted = None)"
    then have "exportCoords big doc f = JStr []"
      by (auto simp: exportCoords_def)
    with col show "map_of (dataRow big flds doc) (field_name f @ '' (Coords)'') = Some (JStr [])"
      by simp
  qed
qed

theorem exportCoords_serialization_witness:
  "initialFields ! 0 \<in> set initialFields
   \<and> map_of (dataRow demoBig initialFields boxDoc) ''Invoice Number (Coords)''
       = Some (JStr ''[100,200,300,400]'')
   \<and> map_of (dataRow demoBig initialFields boxDoc) ''Invoice Date (Coords)'' = Some (JStr [])"
proof -
  have m0: "initialFields ! 0 \<in> set initialFields" and m1: "initialFields ! 1 \<in> set initialFields"
    by (simp_all add: initialFields_def)
  have h0: "\<forall>g \<in> set initialFields.
              field_name g \<noteq> field_name (initialFields ! 0) @ '' (Coords)''
              \<and> (field_name g = field_name (initialFields ! 0) \<longrightarrow>
                   field_key g = field_key (initialFields ! 0))"
    by (simp add: initialFields_def)
  have h1: "\<forall>g \<in> set initialFields.
              field_name g \<noteq> field_name (initialFields ! 1) @ '' (Coords)''
              \<and> (field_name g = field_name (initialFields ! 1) \<longrightarrow>
                   field_key g = field_key (initialFields ! 1))"
    by (simp add: initialFields_def)
  have d0: "map_of (data boxDoc) (field_key (initialFields ! 0))
            = Some \<lparr>ev_value = JStr ''INV-001'', box_2d = Some [100, 200, 300, 400]\<rparr>"
    by (simp add: boxDoc_def demoDoc_def initialFields_def)
  have d1: "map_of (data boxDoc) (field_key (initialFields ! 1)) = None"
    by (simp add: boxDoc_def demoDoc_def initialFields_def)
  have n0: "field_name (initialFields ! 0) @ '' (Coords)'' = ''Invoice Number (Coords)''"
    and n1: "field_name (initialFields ! 1) @ '' (Coords)'' = ''Invoice Date (Coords)''"
    by (simp_all add: initialFields_def)
  note t0 = exportCoords_serialization [OF m0 h0, of boxDoc demoBig]
  note t1 = exportCoords_serialization [OF m1 h1, of boxDoc demoBig]
  from t0 have "\<forall>extracted.
        map_of (data boxDoc) (field_key (initialFields ! 0)) = Some extracted \<longrightarrow>
        box_2d extracted = Some [100, 200, 300, 400] \<longrightarrow>
        map_of (dataRow demoBig initialFields boxDoc) (field_name (initialFields ! 0) @ '' (Coords)'')
          = Some (JStr ''[100,200,300,400]'')"
    by (rule conjunct1 [OF conjunct2])
  with d0 have b0: "map_of (dataRow demoBig initialFields boxDoc)
        (field_name (initialFields ! 0) @ '' (Coords)'') = Some (JStr ''[100,200,300,400]'')"
    by simp
  from t1 have "map_of (data boxDoc) (field_key (initialFields ! 1)) = None
        \<or> (\<exists>extracted. map_of (data boxDoc) (field_key (initialFields ! 1)) = Some extracted
              \<and> box_2d extracted = None)
        \<longrightarrow> map_of (dataRow demoBig initialFields boxDoc)
              (field_name (initialFields ! 1) @ '' (Coords)'') = Some (JStr [])"
    by (rule conjunct2 [OF conjunct2])
  with d1 have b1: "map_of (dataRow demoBig initialFields boxDoc)
        (field_name (initialFields ! 1) @ '' (Coords)'') = Some (JStr [])"
    by simp
  from b0 n0 have "map_of (dataRow demoBig initialFields boxDoc) ''Invoice Number (Coords)''
        = Some (JStr ''[100,200,300,400]'')"
    by simp
  moreover from b1 n1
  have "map_of (dataRow demoBig initialFields boxDoc) ''Invoice Date (Coords)'' = Some (JStr [])"
    by simp
  ultimately show ?thesis using m0 by blast
qed




section \<open>Properties of the table parser\<close>

lemma parseLines_skip:
  "\<forall>l \<in> set pre. \<not> isPipeRow (trim l) \<Longrightarrow>
   parseLines (pre @ rest) data' False = parseLines rest data' False"
  by (induction pre) (simp_all add: Let_def)

lemma parseLines_rows:
  "\<forall>l \<in> set tbl. isPipeRow (trim l) \<Longrightarrow>
   parseLines (tbl @ rest) data' started
   = parseLines rest (data' @ tableRowsOf tbl) (started \<or> tableRowsOf tbl \<noteq> [])"
  by (induction tbl arbitrary: data' started) (simp_all add: Let_def tableRowsOf_def)

lemma parseLines_blank:
  "trim blank = [] \<Longrightarrow> parseLines (blank # post) data' True = data'"
  by (simp add: isPipeRow_def startsWith_def)

lemma parseLines_first_table:
  assumes "\<forall>l \<in> set pre. \<not> isPipeRow (trim l)"
    and "\<forall>l \<in> set tbl. isPipeRow (trim l)"
    and "tableRowsOf tbl \<noteq> []"
    and "trim blank = []"
  shows "parseLines (pre @ tbl @ blank # post) [] False = tableRowsOf tbl"
proof -
  have "parseLines (pre @ tbl @ blank # post) [] False = parseLines (tbl @ blank # post) [] False"
    using assms(1) by (rule parseLines_skip)
  also have "\<dots> = parseLines (blank # post) ([] @ tableRowsOf tbl) (False \<or> tableRowsOf tbl \<noteq> [])"
    using assms(2) by (rule parseLines_rows)
  also have "\<dots> = parseLines (blank # post) (tableRowsOf tbl) True"
    using assms(3) by (simp only: append_Nil simp_thms not_False_eq_True)
  also have "\<dots> = tableRowsOf tbl"
    using assms(4) by (rule parseLines_blank)
  finally show ?thesis .
qed

lemma split_on_join:
  "ls \<noteq> [] \<Longrightarrow> \<forall>l \<in> set ls. c \<notin> set l \<Longrightarrow> split_on c (join [c] ls) = ls"
proof (induction "[c]" ls rule: join.induct)
  case 1
  then show ?case by simp
next
  case (2 x)
  then show ?case by (simp add: split_on_no_sep)
next
  case (3 x y ys)
  then show ?case by (simp add: split_on_append)
qed

text \<open>
  What the parser does on a report of this shape holds in general: lines that are no rows,
  then a run of rows of which at least one is kept, then an empty line, then anything. The
  result is the kept rows of the run, cell by cell, and nothing after the empty line.
\<close>

lemma parseMarkdownTable_first_table:
  assumes "\<forall>l \<in> set (pre @ tbl @ blank # post). CHR 0x0A \<notin> set l"
    and "\<forall>l \<in> set pre. \<not> isPipeRow (trim l)"
    and "\<forall>l \<in> set tbl. isPipeRow (trim l)"
    and "tableRowsOf tbl \<noteq> []"
    and "trim blank = []"
  shows "parseMarkdownTable (join [CHR 0x0A] (pre @ tbl @ blank # post)) = Some (tableRowsOf tbl)"
proof -
  have "split_on (CHR 0x0A) (join [CHR 0x0A] (pre @ tbl @ blank # post)) = pre @ tbl @ blank # post"
    using assms(1) by (intro split_on_join) simp_all
  then show ?thesis
    using parseLines_first_table [OF assms(2-5)] assms(4)
    by (simp add: parseMarkdownTable_def Let_def)
qed

lemma parseMarkdownTable_dash_separator:
  "parseMarkdownTable (''| a | b |'' @ [CHR 0x0A] @ ''|---|---|'' @ [CHR 0x0A]
      @ ''| 1 | 2 |'' @ [CHR 0x0A] @ [CHR 0x0A] @ ''Done.'' @ [CHR 0x0A] @ ''| x |'')
   = Some [[''a'', ''b''], [''1'', ''2'']]"
  by (simp add: parseMarkdownTable_def Let_def isPipeRow_def startsWith_def endsWith_def
        isSeparatorLine_def tableCells_def trim_def isWhiteSpace_def)

text \<open>
  C6. The separator test removes the pipes and trims the ends, so the spaces between the
  columns of a separator row written \<^verbatim>\<open>| --- | --- |\<close> stay and the row fails the test:
  the parser returns it as a row of data, between the header and the first record.
\<close>

theorem parseMarkdownTable_spaced_separator:
  "parseMarkdownTable (''| a | b |'' @ [CHR 0x0A] @ ''| --- | --- |'' @ [CHR 0x0A]
      @ ''| 1 | 2 |'' @ [CHR 0x0A] @ [CHR 0x0A] @ ''Done.'')
   = Some [[''a'', ''b''], [''---'', ''---''], [''1'', ''2'']]"
  by (simp add: parseMarkdownTable_def Let_def isPipeRow_def startsWith_def endsWith_def
        isSeparatorLine_def tableCells_def trim_def isWhiteSpace_def)

end
